theory Spec2Isabelle
  imports Main "HOL-Library.Word"
begin

section \<open>The debug listener: connection worker and render loop\<close>

text \<open>
  A shallow embedding of \<^verbatim>\<open>src/main.go\<close>. Go strings are byte sequences, so a string
  is a \<^typ>\<open>string\<close> (a list of 8-bit characters) and \<^verbatim>\<open>len\<close> is \<^const>\<open>length\<close>.
  Go's \<^verbatim>\<open>int\<close> has 64 bits and wraps around. The integers of the render loop (the
  fields of the viewport, the sizes of a window, the limits given to the wrappers) are
  64-bit words, read as signed numbers by \<^const>\<open>sint\<close>, so that
  \<^verbatim>\<open>Width-(4+len(name))\<close> wraps as it does in Go. The index that \<^verbatim>\<open>strings.Index\<close>
  returns is -1 or a position in the string, and \<^verbatim>\<open>index+8\<close> is then at most the
  length of that string (lemma \<open>Index_split\<close>), so it cannot wrap and is an \<^typ>\<open>int\<close>.

  The program is glue around libraries that are not part of the repository. The
  functions of Go's \<^verbatim>\<open>strings\<close> package that work on bytes (\<^verbatim>\<open>Index\<close>,
  \<^verbatim>\<open>TrimLeft\<close> with the cutset \<^verbatim>\<open>" "\<close>, the ASCII path of \<^verbatim>\<open>TrimSpace\<close>) are
  written out. Everything else the code calls (the Unicode path of \<^verbatim>\<open>TrimSpace\<close>, the
  reflow wrappers, the lipgloss style, the viewport widget) is a parameter of the model,
  so that a theorem holds whatever those collaborators compute.
\<close>

subsection \<open>Functions of the \<^verbatim>\<open>strings\<close> package\<close>

definition newline :: char where
  "newline = CHR 0x0A"

text \<open>The identity marker: the literal of \<^verbatim>\<open>strings.Index(str, "::name::")\<close>, 8 bytes long.\<close>

definition marker :: string where
  "marker = ''::name::''"

definition HasPrefix :: "string \<Rightarrow> string \<Rightarrow> bool" where
  "HasPrefix s p = (length p \<le> length s \<and> take (length p) s = p)"

text \<open>\<^verbatim>\<open>strings.Index(s, substr)\<close>: the index of the first instance of \<^verbatim>\<open>substr\<close> in
  \<^verbatim>\<open>s\<close>, or -1 when there is none.\<close>

fun Index :: "string \<Rightarrow> string \<Rightarrow> int" where
  "Index [] substr = (if substr = [] then 0 else -1)"
| "Index (c # s) substr =
     (if HasPrefix (c # s) substr then 0
      else (let i = Index s substr in if i = -1 then -1 else i + 1))"

text \<open>The table \<^verbatim>\<open>asciiSpace\<close> of the \<^verbatim>\<open>strings\<close> package: tab, line feed, vertical tab,
  form feed, carriage return and space.\<close>

definition asciiSpace :: "char \<Rightarrow> bool" where
  "asciiSpace c = (c = CHR 0x09 \<or> c = CHR 0x0A \<or> c = CHR 0x0B \<or> c = CHR 0x0C
                   \<or> c = CHR 0x0D \<or> c = CHR 0x20)"

definition RuneSelf :: nat where
  "RuneSelf = 128"

text \<open>
  \<^verbatim>\<open>strings.TrimSpace\<close> scans ASCII bytes itself and hands the string to
  \<^verbatim>\<open>TrimFunc(s[start:], unicode.IsSpace)\<close>, or to \<^verbatim>\<open>TrimRightFunc(s[start:stop], unicode.IsSpace)\<close>,
  as soon as it meets a byte \<open>\<ge> RuneSelf\<close>. Those two decode UTF-8 and consult the
  Unicode tables; they are the parameters \<open>TrimFunc_IsSpace\<close> and
  \<open>TrimRightFunc_IsSpace\<close>.
\<close>

record unicode =
  TrimFunc_IsSpace :: "string \<Rightarrow> string"
  TrimRightFunc_IsSpace :: "string \<Rightarrow> string"

text \<open>The second loop of \<^verbatim>\<open>TrimSpace\<close>, from the end of \<^verbatim>\<open>s[start:]\<close>; its argument is
  that string reversed.\<close>

fun TrimSpace_stop :: "unicode \<Rightarrow> string \<Rightarrow> string" where
  "TrimSpace_stop u [] = []"
| "TrimSpace_stop u (c # r) =
     (if RuneSelf \<le> of_char c then TrimRightFunc_IsSpace u (rev (c # r))
      else if asciiSpace c then TrimSpace_stop u r
      else rev (c # r))"

text \<open>The first loop of \<^verbatim>\<open>TrimSpace\<close>, from the start.\<close>

fun TrimSpace_start :: "unicode \<Rightarrow> string \<Rightarrow> string" where
  "TrimSpace_start u [] = TrimSpace_stop u []"
| "TrimSpace_start u (c # s) =
     (if RuneSelf \<le> of_char c then TrimFunc_IsSpace u (c # s)
      else if asciiSpace c then TrimSpace_start u s
      else TrimSpace_stop u (rev (c # s)))"

definition TrimSpace :: "unicode \<Rightarrow> string \<Rightarrow> string" where
  "TrimSpace u s = TrimSpace_start u s"

text \<open>\<^verbatim>\<open>strings.TrimLeft(s, " ")\<close>: the cutset is the single ASCII byte space.\<close>

definition TrimLeft_space :: "string \<Rightarrow> string" where
  "TrimLeft_space s = dropWhile (\<lambda>c. c = CHR 0x20) s"

subsection \<open>The connection worker: \<^verbatim>\<open>handleConnection\<close>\<close>

record remoteMessage =
  name :: string
  message :: string

text \<open>A slice expression out of range panics in Go; the model keeps that branch.\<close>

datatype error = SliceBoundsOutOfRange

text \<open>What a worker does that others can see: \<^verbatim>\<open>p.Send(remoteMessage{...})\<close>,
  \<^verbatim>\<open>conn.Close()\<close>, or a panic of the goroutine.\<close>

datatype event = Send remoteMessage | Close | Panic error

text \<open>
  \<^verbatim>\<open>reader.ReadBytes('\n')\<close> on the bytes the connection still delivers before it ends
  or fails: the bytes up to and including the first delimiter, no error, and the bytes
  left; or, when no delimiter comes before the end, the bytes read and an error.
\<close>

definition ReadBytes :: "char \<Rightarrow> string \<Rightarrow> string \<times> bool \<times> string" where
  "ReadBytes delim s =
     (case dropWhile (\<lambda>c. c \<noteq> delim) s of
        [] \<Rightarrow> (s, True, [])
      | d # rest \<Rightarrow> (takeWhile (\<lambda>c. c \<noteq> delim) s @ [d], False, rest))"

text \<open>Lines 81 to 85: the test for the marker on one line \<open>str\<close>, with the worker's
  current \<open>name\<close> in \<open>nm\<close>. The result is the new \<open>name\<close> and the events of this line.\<close>

definition handleLine :: "unicode \<Rightarrow> string \<Rightarrow> string \<Rightarrow> error + (string \<times> event list)" where
  "handleLine u nm str =
     (let index = Index str marker in
      if index \<noteq> -1 then
        (if int (length str) < index + 8 then Inl SliceBoundsOutOfRange
         else Inr (TrimSpace u (drop (nat (index + 8)) str) @ '': '', []))
      else Inr (nm, [Send \<lparr>name = nm, message = str\<rparr>]))"

lemma ReadBytes_shorter:
  "(buffer, False, rest) = ReadBytes delim s \<Longrightarrow> length rest < length s"
proof -
  assume a: "(buffer, False, rest) = ReadBytes delim s"
  have "length (dropWhile (\<lambda>c. c \<noteq> delim) s) \<le> length s"
    by (rule length_dropWhile_le)
  with a show ?thesis
    by (auto simp: ReadBytes_def split: list.splits)
qed

text \<open>The loop of lines 72 to 86, on the bytes \<open>stream\<close> that the connection delivers
  before it ends or fails.\<close>

function handleConnection_loop :: "unicode \<Rightarrow> string \<Rightarrow> string \<Rightarrow> event list" where
  "handleConnection_loop u nm stream =
     (case ReadBytes newline stream of (buffer, err, rest) \<Rightarrow>
        if err then [Close]
        else if length buffer < 1 then [Panic SliceBoundsOutOfRange]
        else (case handleLine u nm (take (length buffer - 1) buffer) of
                Inl e \<Rightarrow> [Panic e]
              | Inr (nm', out) \<Rightarrow> out @ handleConnection_loop u nm' rest))"
  by pat_completeness auto
termination
  by (relation "measure (\<lambda>(u, nm, stream). length stream)")
     (auto dest: ReadBytes_shorter)

definition handleConnection :: "unicode \<Rightarrow> string \<Rightarrow> event list" where
  "handleConnection u stream = handleConnection_loop u [] stream"

declare handleConnection_loop.simps [simp del]

text \<open>The condition of line 81, and the \<open>name\<close> that line 82 computes from a line that
  meets it.\<close>

definition isIdentityLine :: "string \<Rightarrow> bool" where
  "isIdentityLine str = (Index str marker \<noteq> -1)"

definition announced :: "unicode \<Rightarrow> string \<Rightarrow> string" where
  "announced u str = TrimSpace u (drop (nat (Index str marker + 8)) str) @ '': ''"

text \<open>The bytes of a connection on which the lines \<open>ls\<close> were sent, each followed by its
  line terminator, as the sender of \<^verbatim>\<open>src/example-client.go\<close> writes them.\<close>

definition frame :: "string list \<Rightarrow> string" where
  "frame ls = concat (map (\<lambda>l. l @ [newline]) ls)"

text \<open>The messages a worker submitted, in the order of submission.\<close>

fun sent :: "event list \<Rightarrow> remoteMessage list" where
  "sent [] = []"
| "sent (Send r # es) = r # sent es"
| "sent (e # es) = sent es"

text \<open>
  The identity announcement as the specification states it: a line that begins with the
  marker; its label is what follows the marker, trimmed, and the label terminator. The
  label of a message is the one set by the most recent such line among the lines \<open>ls\<close>
  before it, or the empty label when there is none.
\<close>

definition beginsWithMarker :: "string \<Rightarrow> bool" where
  "beginsWithMarker l = HasPrefix l marker"

definition label_as_stated :: "unicode \<Rightarrow> string list \<Rightarrow> string" where
  "label_as_stated u ls =
     (case filter beginsWithMarker ls of
        [] \<Rightarrow> []
      | a # as \<Rightarrow> TrimSpace u (drop (length marker) (last (a # as))) @ '': '')"

text \<open>
  The identity announcement of the amended claims: a line that contains the marker, at
  any position. \<open>afterMarker\<close> is the text after the first instance of the marker in a
  line, when there is one, and the label that such a line sets is that text, trimmed,
  and the label terminator.
\<close>

fun afterMarker :: "string \<Rightarrow> string option" where
  "afterMarker [] = None"
| "afterMarker (c # s) =
     (if HasPrefix (c # s) marker then Some (drop (length marker) (c # s))
      else afterMarker s)"

definition containsMarker :: "string \<Rightarrow> bool" where
  "containsMarker l = (afterMarker l \<noteq> None)"

definition label_set_by :: "unicode \<Rightarrow> string \<Rightarrow> string" where
  "label_set_by u l =
     (case afterMarker l of
        None \<Rightarrow> []
      | Some post \<Rightarrow> TrimSpace u post @ '': '')"

definition label_before :: "unicode \<Rightarrow> string list \<Rightarrow> string" where
  "label_before u ls =
     (case filter containsMarker ls of
        [] \<Rightarrow> []
      | a # as \<Rightarrow> label_set_by u (last (a # as)))"

text \<open>Two auxiliary functions of the proofs: the label after the lines \<open>ls\<close> for a worker
  whose label was \<open>nm\<close>, and the messages of the lines \<open>ls\<close> for such a worker.\<close>

definition label_from :: "unicode \<Rightarrow> string \<Rightarrow> string list \<Rightarrow> string" where
  "label_from u nm ls =
     (case filter isIdentityLine ls of
        [] \<Rightarrow> nm
      | a # as \<Rightarrow> announced u (last (a # as)))"

fun labelled :: "unicode \<Rightarrow> string \<Rightarrow> string list \<Rightarrow> remoteMessage list" where
  "labelled u nm [] = []"
| "labelled u nm (l # ls) =
     (if isIdentityLine l then labelled u (announced u l) ls
      else \<lparr>name = nm, message = l\<rparr> # labelled u nm ls)"

text \<open>An instance of the Unicode path for evaluating examples: it leaves its argument as
  it is, which is what \<^verbatim>\<open>TrimFunc\<close> does on a string without Unicode white space at
  its ends. No example below reaches it: their lines are ASCII.\<close>

definition no_unicode :: unicode where
  "no_unicode = \<lparr>TrimFunc_IsSpace = (\<lambda>s. s), TrimRightFunc_IsSpace = (\<lambda>s. s)\<rparr>"

subsection \<open>The render loop: \<^verbatim>\<open>model\<close> and \<^verbatim>\<open>Update\<close>\<close>

text \<open>
  \<^verbatim>\<open>viewport.Model\<close> belongs to the bubbles library. The source reads and writes its
  fields \<^verbatim>\<open>Width\<close>, \<^verbatim>\<open>Height\<close>, \<^verbatim>\<open>YPosition\<close> and \<^verbatim>\<open>HighPerformanceRendering\<close>;
  whatever else the widget keeps (its lines, its scroll offset) is the field
  \<open>widget\<close>, of a type the model leaves open.
\<close>

type_synonym go_int = "64 word"

record 'w viewport_Model =
  Width :: go_int
  Height :: go_int
  YPosition :: go_int
  HighPerformanceRendering :: bool
  widget :: 'w

record 'w model =
  content :: string
  ready :: bool
  viewport :: "'w viewport_Model"

text \<open>The messages \<^verbatim>\<open>Update\<close> switches on: a key press (by its \<^verbatim>\<open>String()\<close>), a window
  size (width, height), a line of a connection, and any other message of the runtime.\<close>

datatype 'x Msg =
    KeyMsg string
  | WindowSizeMsg go_int go_int
  | RemoteMsg remoteMessage
  | OtherMsg 'x

text \<open>The commands \<^verbatim>\<open>Update\<close> returns: \<^verbatim>\<open>nil\<close>, \<^verbatim>\<open>tea.Quit\<close>, or
  \<^verbatim>\<open>tea.Batch(cmds...)\<close> of commands the viewport made.\<close>

datatype 'c Cmd = CmdNil | Quit | Batch "'c list"

text \<open>
  The collaborators of \<^verbatim>\<open>Update\<close>, none of them code of this repository:
  \<^item> \<open>Render\<close>: \<^verbatim>\<open>boldStyle.Render\<close> (lipgloss);
  \<^item> \<open>wordwrap_String\<close>, \<open>indent_String\<close>, \<open>wrap_String\<close>: \<^verbatim>\<open>wordwrap.String\<close>,
    \<^verbatim>\<open>indent.String\<close> and \<^verbatim>\<open>wrap.String\<close> (reflow), each with its limit or indent;
  \<^item> \<open>SetContent\<close>, \<open>viewport_New\<close>, \<open>viewport_Update\<close>, \<open>viewport_Sync\<close>: the
    viewport widget (bubbles);
  \<^item> \<open>headerHeight\<close>, \<open>footerHeight\<close>: \<^verbatim>\<open>lipgloss.Height\<close> of the rendered header and
    footer of a model;
  \<^item> \<open>zero_widget\<close>: the widget's private state in Go's zero \<^verbatim>\<open>viewport.Model\<close>.
\<close>

record ('w, 'x, 'c) deps =
  Render :: "string \<Rightarrow> string"
  wordwrap_String :: "string \<Rightarrow> go_int \<Rightarrow> string"
  indent_String :: "string \<Rightarrow> nat \<Rightarrow> string"
  wrap_String :: "string \<Rightarrow> go_int \<Rightarrow> string"
  SetContent :: "string \<Rightarrow> 'w viewport_Model \<Rightarrow> 'w viewport_Model"
  viewport_New :: "go_int \<Rightarrow> go_int \<Rightarrow> 'w viewport_Model"
  viewport_Update :: "'w viewport_Model \<Rightarrow> 'x Msg \<Rightarrow> 'w viewport_Model \<times> 'c"
  viewport_Sync :: "'w viewport_Model \<Rightarrow> 'c"
  headerHeight :: "'w model \<Rightarrow> go_int"
  footerHeight :: "'w model \<Rightarrow> go_int"
  zero_widget :: 'w

definition useHighPerformanceRenderer :: bool where
  "useHighPerformanceRenderer = False"

definition initialModel :: "('w, 'x, 'c) deps \<Rightarrow> 'w model" where
  "initialModel d =
     \<lparr>content = [], ready = False,
      viewport = \<lparr>Width = 0, Height = 0, YPosition = 0,
                  HighPerformanceRendering = False, widget = zero_widget d\<rparr>\<rparr>"

text \<open>Lines 174 to 181: the block that a message with the label \<open>nm\<close> and the text
  \<open>text\<close> adds to the transcript when the viewport is \<open>width\<close> wide. The limit of
  the word wrapper is computed in 64 bits.\<close>

definition format :: "('w, 'x, 'c) deps \<Rightarrow> string \<Rightarrow> string \<Rightarrow> go_int \<Rightarrow> string" where
  "format d nm text width =
     (let output = (if length nm > 0 then Render d nm @ text else text);
          output = wordwrap_String d output (width - (4 + of_nat (length nm)));
          output = indent_String d ('' '' @ output) 4;
          output = TrimLeft_space output
      in wrap_String d (output @ [newline]) width)"

text \<open>The end of \<^verbatim>\<open>Update\<close> (lines 187 to 191), reached by every message that did not
  return before: the viewport handles the message, and its command is batched after
  \<open>cmds\<close>.\<close>

definition Update_viewport ::
  "('w, 'x, 'c) deps \<Rightarrow> 'x Msg \<Rightarrow> 'c list \<Rightarrow> 'w model \<Rightarrow> 'w model \<times> 'c Cmd" where
  "Update_viewport d msg cmds m =
     (case viewport_Update d (viewport m) msg of
        (v, cmd) \<Rightarrow> (m\<lparr>viewport := v\<rparr>, Batch (cmds @ [cmd])))"

definition Update :: "('w, 'x, 'c) deps \<Rightarrow> 'x Msg \<Rightarrow> 'w model \<Rightarrow> 'w model \<times> 'c Cmd" where
  "Update d msg m =
     (case msg of
        KeyMsg k \<Rightarrow>
          if k = ''ctrl+c'' \<or> k = ''q'' then (m, Quit)
          else if k = ''c'' then
            (m\<lparr>content := [], viewport := SetContent d [] (viewport m)\<rparr>, CmdNil)
          else Update_viewport d msg [] m
      | WindowSizeMsg w h \<Rightarrow>
          (let verticalMarginHeight = headerHeight d m + footerHeight d m;
               m1 = (if \<not> ready m then
                       (let v = viewport_New d w (h - verticalMarginHeight);
                            v = v\<lparr>YPosition := headerHeight d m\<rparr>;
                            v = v\<lparr>HighPerformanceRendering := useHighPerformanceRenderer\<rparr>;
                            v = SetContent d (content m) v
                        in m\<lparr>viewport := v\<lparr>YPosition := headerHeight d m + 1\<rparr>,
                             ready := True\<rparr>)
                     else m\<lparr>viewport := (viewport m)\<lparr>Width := w,
                                                      Height := h - verticalMarginHeight\<rparr>\<rparr>);
               cmds = (if useHighPerformanceRenderer then [viewport_Sync d (viewport m1)]
                       else [])
           in Update_viewport d msg cmds m1)
      | RemoteMsg r \<Rightarrow>
          (if length (message r) > 0 then
             (let c = content m @ format d (name r) (message r) (Width (viewport m))
              in (m\<lparr>content := c, viewport := SetContent d c (viewport m)\<rparr>, CmdNil))
           else (m, CmdNil))
      | OtherMsg x \<Rightarrow> Update_viewport d msg [] m)"

subsection \<open>An instance of the collaborators, for evaluating examples\<close>

text \<open>
  A terminal without styling, and text without escape sequences, tabs or wide
  characters: \<open>Render\<close> adds no codes; the word wrapper finds nothing to break (the
  examples below give it a text that fits its limit, or a negative limit);
  \<open>indent_lines\<close> puts the indent at the start of every line; \<open>hard_wrap\<close> breaks a
  line that would pass the limit, and a limit \<open>\<le> 0\<close> leaves the text as it is.

  The widget keeps the content it was given and a scroll offset, the number of the
  first line it shows. As the viewport of bubbles does, its \<open>SetContent\<close> moves an
  offset that lies beyond the last line of the new content to the bottom of that
  content, and leaves the other fields as they are.
\<close>

fun indent_lines :: "nat \<Rightarrow> bool \<Rightarrow> string \<Rightarrow> string" where
  "indent_lines n atStart [] = []"
| "indent_lines n atStart (c # cs) =
     (if atStart then replicate n (CHR 0x20) else []) @ c # indent_lines n (c = newline) cs"

fun hard_wrap :: "nat \<Rightarrow> nat \<Rightarrow> string \<Rightarrow> string" where
  "hard_wrap limit lineLen [] = []"
| "hard_wrap limit lineLen (c # cs) =
     (if c = newline then c # hard_wrap limit 0 cs
      else if limit < lineLen + 1 then newline # c # hard_wrap limit 1 cs
      else c # hard_wrap limit (lineLen + 1) cs)"

definition line_count :: "string \<Rightarrow> int" where
  "line_count s = 1 + int (length (filter (\<lambda>c. c = newline) s))"

definition set_content ::
  "string \<Rightarrow> (string \<times> int) viewport_Model \<Rightarrow> (string \<times> int) viewport_Model" where
  "set_content s v =
     (let yOffset = snd (widget v) in
      v\<lparr>widget := (s, if line_count s - 1 < yOffset
                        then max 0 (line_count s - sint (Height v))
                        else yOffset)\<rparr>)"

definition plain :: "(string \<times> int, unit, unit) deps" where
  "plain =
     \<lparr>Render = (\<lambda>s. s),
      wordwrap_String = (\<lambda>s limit. s),
      indent_String = (\<lambda>s n. indent_lines n True s),
      wrap_String = (\<lambda>s limit. if sint limit \<le> 0 then s
                                 else hard_wrap (nat (sint limit)) 0 s),
      SetContent = set_content,
      viewport_New = (\<lambda>w h. \<lparr>Width = w, Height = h, YPosition = 0,
                                HighPerformanceRendering = False, widget = ([], 0)\<rparr>),
      viewport_Update = (\<lambda>v msg. (v, ())),
      viewport_Sync = (\<lambda>v. ()),
      headerHeight = (\<lambda>m. 3),
      footerHeight = (\<lambda>m. 3),
      zero_widget = ([], 0)\<rparr>"

text \<open>A model in the Ready state: the viewport is \<open>w\<close> wide and two lines high, and
  shows the transcript \<open>c\<close> from its line \<open>yOffset\<close> on.\<close>

definition scrolled :: "go_int \<Rightarrow> string \<Rightarrow> int \<Rightarrow> (string \<times> int) model" where
  "scrolled w c yOffset =
     \<lparr>content = c, ready = True,
      viewport = \<lparr>Width = w, Height = 2, YPosition = 4,
                  HighPerformanceRendering = False, widget = (c, yOffset)\<rparr>\<rparr>"

definition shown :: "go_int \<Rightarrow> string \<Rightarrow> (string \<times> int) model" where
  "shown w c = scrolled w c 0"

section \<open>Properties of the connection worker\<close>

subsection \<open>\<^verbatim>\<open>strings.Index\<close> finds the first instance\<close>

lemma Index_ge: "-1 \<le> Index s p"
  by (induction s) (auto simp: Let_def)

lemma HasPrefix_append: "HasPrefix (p @ post) p"
  by (simp add: HasPrefix_def)

lemma HasPrefix_iff: "HasPrefix s p = (\<exists>post. s = p @ post)"
proof
  assume "HasPrefix s p"
  then have "s = p @ drop (length p) s"
    by (metis HasPrefix_def append_take_drop_id)
  then show "\<exists>post. s = p @ post" ..
next
  assume "\<exists>post. s = p @ post"
  then show "HasPrefix s p" by (auto simp: HasPrefix_def)
qed

lemma Index_contains: "Index (pre @ p @ post) p \<noteq> -1"
proof (induction pre)
  case Nil
  show ?case
  proof (cases "p @ post")
    case Nil
    then show ?thesis by simp
  next
    case (Cons c s)
    have "HasPrefix (p @ post) p" by (rule HasPrefix_append)
    with Cons show ?thesis by simp
  qed
next
  case (Cons c pre)
  have "-1 \<le> Index (pre @ p @ post) p" by (rule Index_ge)
  with Cons show ?case by (auto simp: Let_def)
qed

lemma Index_split:
  assumes "p \<noteq> []" "Index s p \<noteq> -1"
  shows "\<exists>pre post. s = pre @ p @ post \<and> int (length pre) = Index s p
           \<and> (\<forall>a b. pre @ butlast p \<noteq> a @ p @ b)"
  using assms(2)
proof (induction s)
  case Nil
  with assms(1) show ?case by simp
next
  case (Cons c s)
  show ?case
  proof (cases "HasPrefix (c # s) p")
    case True
    then obtain post where s: "c # s = p @ post" by (auto simp: HasPrefix_iff)
    have "\<And>a b. butlast p \<noteq> a @ p @ b"
    proof
      fix a b assume "butlast p = a @ p @ b"
      then have "length (butlast p) = length (a @ p @ b)" by (rule arg_cong)
      then have "length p - 1 = length a + length p + length b" by simp
      moreover from assms(1) have "0 < length p" by simp
      ultimately show False by linarith
    qed
    moreover from True have "Index (c # s) p = 0" by simp
    ultimately have "c # s = [] @ p @ post \<and> int (length ([]::string)) = Index (c # s) p
        \<and> (\<forall>a b. [] @ butlast p \<noteq> a @ p @ b)" using s by simp
    then show ?thesis by blast
  next
    case False
    with Cons.prems have i: "Index s p \<noteq> -1" by (auto simp: Let_def split: if_splits)
    from Cons.IH[OF i] obtain pre post where
      s: "s = pre @ p @ post" and l: "int (length pre) = Index s p"
      and f: "\<forall>a b. pre @ butlast p \<noteq> a @ p @ b" by blast
    have "\<And>a b. (c # pre) @ butlast p \<noteq> a @ p @ b"
    proof
      fix a b assume e: "(c # pre) @ butlast p = a @ p @ b"
      show False
      proof (cases a)
        case Nil
        with e have "c # s = p @ b @ [last p] @ post"
          using s assms(1) by (metis append_Cons append_Nil append_assoc append_butlast_last_id)
        then have "HasPrefix (c # s) p" by (auto simp: HasPrefix_iff)
        with False show False by simp
      next
        case (Cons x a')
        with e have "pre @ butlast p = a' @ p @ b" by simp
        with f show False by blast
      qed
    qed
    with s l False i have "c # s = (c # pre) @ p @ post
        \<and> int (length (c # pre)) = Index (c # s) p
        \<and> (\<forall>a b. (c # pre) @ butlast p \<noteq> a @ p @ b)" by (simp add: Let_def)
    then show ?thesis by blast
  qed
qed

lemma contains_iff: "(Index s marker \<noteq> -1) = (\<exists>pre post. s = pre @ marker @ post)"
proof
  assume "Index s marker \<noteq> - 1"
  from Index_split[OF _ this] show "\<exists>pre post. s = pre @ marker @ post"
    by (auto simp: marker_def)
next
  assume "\<exists>pre post. s = pre @ marker @ post"
  then show "Index s marker \<noteq> -1" using Index_contains by auto
qed

lemma Index_first:
  assumes "p \<noteq> []" "\<forall>a b. pre @ butlast p \<noteq> a @ p @ b"
  shows "Index (pre @ p @ post) p = int (length pre)"
  using assms(2)
proof (induction pre)
  case Nil
  have "HasPrefix (p @ post) p" by (rule HasPrefix_append)
  with assms(1) show ?case by (cases "p @ post") auto
next
  case (Cons c pre)
  have np: "\<not> HasPrefix (c # pre @ p @ post) p"
  proof
    assume "HasPrefix (c # pre @ p @ post) p"
    then obtain r where r: "c # pre @ p @ post = p @ r" by (auto simp: HasPrefix_iff)
    from assms(1) have "0 < length p" by simp
    then have len: "length p \<le> length ((c # pre) @ butlast p)" by simp
    have "((c # pre) @ butlast p) @ ([last p] @ post) = p @ r"
      using r assms(1) by (metis append_Cons append_Nil append_assoc append_butlast_last_id)
    then have "take (length p) (((c # pre) @ butlast p) @ ([last p] @ post)) = take (length p) (p @ r)"
      by (rule arg_cong)
    with len have "take (length p) ((c # pre) @ butlast p) = p"
      by (simp only: take_append) simp
    then have "(c # pre) @ butlast p = [] @ p @ drop (length p) ((c # pre) @ butlast p)"
      by (metis append_Nil append_take_drop_id)
    with Cons.prems show False by blast
  qed
  have "\<forall>a b. pre @ butlast p \<noteq> a @ p @ b"
  proof (intro allI notI)
    fix a b assume "pre @ butlast p = a @ p @ b"
    then have "(c # pre) @ butlast p = (c # a) @ p @ b" by simp
    with Cons.prems show False by blast
  qed
  from Cons.IH[OF this] np show ?case by (simp add: Let_def)
qed

subsection \<open>One line, and the loop over framed lines\<close>

lemma marker_length: "length marker = 8"
  by (simp add: marker_def)

lemma handleLine_eq:
  "handleLine u nm str =
     Inr (if isIdentityLine str then (announced u str, [])
          else (nm, [Send \<lparr>name = nm, message = str\<rparr>]))"
proof (cases "Index str marker = -1")
  case True
  then show ?thesis by (simp add: handleLine_def isIdentityLine_def)
next
  case False
  have "marker \<noteq> []" by (simp add: marker_def)
  from Index_split[OF this False] obtain pre post where
    s: "str = pre @ marker @ post" and l: "int (length pre) = Index str marker" by blast
  from s have "length str = length pre + 8 + length post" by (simp add: marker_length)
  with l have "\<not> int (length str) < Index str marker + 8" by linarith
  with False show ?thesis
    by (simp add: handleLine_def isIdentityLine_def announced_def)
qed

lemma announced_first:
  assumes "\<forall>a b. pre @ butlast marker \<noteq> a @ marker @ b"
  shows "announced u (pre @ marker @ post) = TrimSpace u post @ '': ''"
proof -
  have "marker \<noteq> []" by (simp add: marker_def)
  from Index_first[OF this assms] have "Index (pre @ marker @ post) marker = int (length pre)" .
  then have "nat (Index (pre @ marker @ post) marker + 8) = length pre + length marker"
    by (simp add: marker_length)
  then show ?thesis by (simp add: announced_def)
qed

lemma ReadBytes_line:
  assumes "newline \<notin> set l"
  shows "ReadBytes newline (l @ newline # rest) = (l @ [newline], False, rest)"
proof -
  from assms have p: "\<And>x. x \<in> set l \<Longrightarrow> x \<noteq> newline" by auto
  have "dropWhile (\<lambda>c. c \<noteq> newline) (l @ newline # rest) = newline # rest"
    using p by (simp add: dropWhile_append2)
  moreover have "takeWhile (\<lambda>c. c \<noteq> newline) (l @ newline # rest) = l"
    using p by (simp add: takeWhile_append2)
  ultimately show ?thesis by (simp add: ReadBytes_def)
qed

lemma ReadBytes_end:
  "newline \<notin> set t \<Longrightarrow> ReadBytes newline t = (t, True, [])"
proof -
  assume "newline \<notin> set t"
  then have d: "dropWhile (\<lambda>c. c \<noteq> newline) t = []" by auto
  show ?thesis unfolding ReadBytes_def d by simp
qed

lemma loop_frame:
  assumes "\<forall>l \<in> set ls. newline \<notin> set l" "newline \<notin> set t"
  shows "handleConnection_loop u nm (frame ls @ t) = map Send (labelled u nm ls) @ [Close]"
  using assms(1)
proof (induction ls arbitrary: nm)
  case Nil
  from assms(2) show ?case
    by (subst handleConnection_loop.simps) (simp add: frame_def ReadBytes_end)
next
  case (Cons l ls)
  then have nl: "newline \<notin> set l" and rest: "\<forall>l \<in> set ls. newline \<notin> set l" by simp_all
  have fr: "frame (l # ls) @ t = l @ newline # (frame ls @ t)" by (simp add: frame_def)
  show ?case
    by (subst handleConnection_loop.simps)
       (simp add: fr ReadBytes_line[OF nl] handleLine_eq Cons.IH[OF rest])
qed

lemma sent_map_Send: "sent (map Send rs @ [Close]) = rs"
  by (induction rs) auto

lemma message_labelled: "map message (labelled u nm ls) = filter (\<lambda>l. \<not> isIdentityLine l) ls"
  by (induction ls arbitrary: nm) auto

lemma label_from_Cons:
  "label_from u nm (l # ls) = label_from u (if isIdentityLine l then announced u l else nm) ls"
  by (auto simp: label_from_def split: list.splits)

lemma label_from_Nil: "label_from u nm [] = nm"
  by (simp add: label_from_def)

lemma upt_0_Suc: "[0..<Suc n] = 0 # map Suc [0..<n]"
  by (simp add: upt_conv_Cons map_Suc_upt del: upt_Suc)

lemma labelled_index:
  "labelled u nm ls =
     map (\<lambda>i. \<lparr>name = label_from u nm (take i ls), message = ls ! i\<rparr>)
       (filter (\<lambda>i. \<not> isIdentityLine (ls ! i)) [0..<length ls])"
proof (induction ls arbitrary: nm)
  case Nil
  show ?case by simp
next
  case (Cons l ls)
  show ?case
    by (simp add: upt_0_Suc filter_map comp_def Cons.IH label_from_Cons label_from_Nil
             del: upt_Suc)
qed

lemma afterMarker_Index:
  "afterMarker s =
     (if Index s marker = -1 then None else Some (drop (nat (Index s marker + 8)) s))"
proof (induction s)
  case Nil
  show ?case by (simp add: marker_def)
next
  case (Cons c s)
  have ge: "-1 \<le> Index s marker" by (rule Index_ge)
  show ?case
  proof (cases "HasPrefix (c # s) marker")
    case True
    then show ?thesis by (simp add: marker_length)
  next
    case False
    show ?thesis
    proof (cases "Index s marker = -1")
      case True
      with False Cons show ?thesis by (simp add: Let_def)
    next
      case found: False
      with ge have pos: "0 \<le> Index s marker" by linarith
      then have n: "nat (Index s marker + 1 + 8) = Suc (nat (Index s marker + 8))"
        by linarith
      from pos have ne: "Index s marker + 1 \<noteq> -1" by linarith
      from False found Cons have "afterMarker (c # s) = Some (drop (nat (Index s marker + 8)) s)"
        by simp
      moreover from False found have "Index (c # s) marker = Index s marker + 1"
        by (simp add: Let_def)
      ultimately show ?thesis using ne n by simp
    qed
  qed
qed

lemma containsMarker_eq: "containsMarker l = isIdentityLine l"
  by (simp add: containsMarker_def isIdentityLine_def afterMarker_Index)

lemma containsMarker_fun_eq: "containsMarker = isIdentityLine"
  by (rule ext) (rule containsMarker_eq)

lemma containsMarker_iff: "containsMarker l = (\<exists>pre post. l = pre @ marker @ post)"
  by (simp add: containsMarker_eq isIdentityLine_def contains_iff)

lemma label_set_by_eq: "isIdentityLine l \<Longrightarrow> label_set_by u l = announced u l"
  by (simp add: label_set_by_def announced_def isIdentityLine_def afterMarker_Index)

lemma label_from_empty: "label_from u [] ls = label_before u ls"
proof (cases "filter isIdentityLine ls")
  case Nil
  then show ?thesis
    by (simp add: label_from_def label_before_def containsMarker_fun_eq)
next
  case (Cons a as)
  have "last (a # as) \<in> set (filter isIdentityLine ls)"
    unfolding Cons by (rule last_in_set) simp
  then have "isIdentityLine (last (a # as))" by simp
  then have "label_set_by u (last (a # as)) = announced u (last (a # as))"
    by (rule label_set_by_eq)
  with Cons show ?thesis
    by (simp add: label_from_def label_before_def containsMarker_fun_eq)
qed

lemma labelled_plain:
  "list_all (\<lambda>l. \<not> containsMarker l) ls \<Longrightarrow>
   labelled u nm ls = map (\<lambda>l. \<lparr>name = nm, message = l\<rparr>) ls"
  by (induction ls) (simp_all add: containsMarker_eq)

lemma asciiSpace_below_RuneSelf: "asciiSpace c \<Longrightarrow> \<not> RuneSelf \<le> of_char c"
  by (auto simp: asciiSpace_def RuneSelf_def)

lemma TrimSpace_blank: "list_all asciiSpace ws \<Longrightarrow> TrimSpace u ws = []"
  unfolding TrimSpace_def
  by (induction ws) (simp_all add: asciiSpace_below_RuneSelf)

lemma not_newline_concat: "newline \<notin> set (concat ls) \<Longrightarrow> \<forall>l \<in> set ls. newline \<notin> set l"
  by auto

lemma sint_limit:
  fixes w :: go_int
  assumes "- 9223372036854775808 + 4 + int n \<le> sint w" and "sint w \<le> 0"
  shows "sint (w - (4 + of_nat n)) = sint w - 4 - int n"
proof -
  have "w - (4 + of_nat n) = word_of_int (sint w - 4 - int n)"
    by simp
  then have "sint (w - (4 + of_nat n)) = signed_take_bit 63 (sint w - 4 - int n)"
    by (simp only: sint_sbintrunc') simp
  also have "\<dots> = sint w - 4 - int n"
    using assms by (intro signed_take_bit_int_eq_self) simp_all
  finally show ?thesis .
qed

section \<open>The claims about the connection worker\<close>

text \<open>
  Claim C1, as the specification states it: a line is treated as an identity
  announcement (the identity is updated, no message is emitted) if and only if it
  begins with the marker \<^verbatim>\<open>::name::\<close>. The worker tests
  \<^verbatim>\<open>strings.Index(str, "::name::") != -1\<close>, so the claim fails on a line that holds the
  marker further in: the line \<^verbatim>\<open>hi ::name::Bob\<close> does not begin with the marker, and
  the worker whose label was \<^verbatim>\<open>Al: \<close> takes the label \<^verbatim>\<open>Bob: \<close> from it and emits
  nothing.
\<close>

theorem middle_marker_is_announcement:
  "\<not> HasPrefix ''hi ::name::Bob'' marker
   \<and> handleLine no_unicode ''Al: '' ''hi ::name::Bob'' = Inr (''Bob: '', [])"
  by (simp add: HasPrefix_def marker_def handleLine_def TrimSpace_def no_unicode_def
        RuneSelf_def asciiSpace_def)

text \<open>
  Claim C1, amended: a line is treated as an identity announcement if and only if it
  contains the marker, at any position. Then the new label is the text after the first
  instance of the marker, trimmed, followed by \<^verbatim>\<open>": "\<close>, and no message is emitted
  (\<open>pre\<close> is the text before the first instance: the marker does not occur in \<open>pre\<close>
  followed by the marker's first seven bytes). Any other line is emitted as a message
  with the current label, which it leaves as it is. No case panics.
\<close>

theorem announcement_iff_contains_marker:
  "((\<exists>nm'. handleLine u nm str = Inr (nm', [])) = (\<exists>pre post. str = pre @ marker @ post))
   \<and> ((\<exists>pre post. str = pre @ marker @ post
            \<and> (\<forall>a b. pre @ butlast marker \<noteq> a @ marker @ b)
            \<and> handleLine u nm str = Inr (TrimSpace u post @ '': '', []))
        \<or> ((\<forall>pre post. str \<noteq> pre @ marker @ post)
            \<and> handleLine u nm str = Inr (nm, [Send \<lparr>name = nm, message = str\<rparr>])))"
proof (cases "isIdentityLine str")
  case True
  then have i: "Index str marker \<noteq> -1" by (simp add: isIdentityLine_def)
  have "marker \<noteq> []" by (simp add: marker_def)
  from Index_split[OF this i] obtain pre post where
    s: "str = pre @ marker @ post"
    and f: "\<forall>a b. pre @ butlast marker \<noteq> a @ marker @ b" by blast
  have "handleLine u nm str = Inr (announced u str, [])"
    using True by (simp add: handleLine_eq)
  also have "announced u str = TrimSpace u post @ '': ''"
    unfolding s using f by (rule announced_first)
  finally have h: "handleLine u nm str = Inr (TrimSpace u post @ '': '', [])" .
  from s f h show ?thesis by blast
next
  case False
  then have n: "\<forall>pre post. str \<noteq> pre @ marker @ post"
    using contains_iff[of str] by (simp add: isIdentityLine_def)
  have h: "handleLine u nm str = Inr (nm, [Send \<lparr>name = nm, message = str\<rparr>])"
    using False by (simp add: handleLine_eq)
  from n h show ?thesis by simp
qed

text \<open>
  Claim C2, as the specification states it: the label of each emitted message is the
  label set by the most recent identity announcement strictly before the message's
  line, an announcement being a line that begins with the marker. The worker takes its
  label from every line that contains the marker: after the lines \<^verbatim>\<open>::name::Al\<close> and
  \<^verbatim>\<open>hi ::name::Bob\<close> the line \<^verbatim>\<open>probe\<close> is emitted with the label \<^verbatim>\<open>Bob: \<close>, where
  the most recent line that begins with the marker set \<^verbatim>\<open>Al: \<close>.
\<close>

theorem label_is_not_latest_prefix_announcement:
  "sent (handleConnection no_unicode (frame [''::name::Al'', ''hi ::name::Bob'', ''probe''])) =
     [\<lparr>name = ''Bob: '', message = ''probe''\<rparr>]
   \<and> label_as_stated no_unicode [''::name::Al'', ''hi ::name::Bob''] = ''Al: ''"
  by code_simp

text \<open>
  Claim C2, amended: on every connection, the label of each emitted message is the
  label set by the most recent line strictly before the message's line that contains
  the marker, at any position, or the empty label when no such line came before. The
  lines \<open>ls\<close> are those the connection delivered in full and \<open>t\<close> is what came after
  the last line terminator; the lines before line \<open>i\<close> are \<open>take i ls\<close>, and the
  messages are those of the lines that do not contain the marker.
\<close>

theorem label_is_latest_announcement:
  assumes "newline \<notin> set (concat ls)" and "newline \<notin> set t"
  shows "sent (handleConnection u (frame ls @ t)) =
           map (\<lambda>i. \<lparr>name = label_before u (take i ls), message = ls ! i\<rparr>)
             (filter (\<lambda>i. \<not> containsMarker (ls ! i)) [0..<length ls])"
proof -
  from assms(1) have "\<forall>l \<in> set ls. newline \<notin> set l" by (rule not_newline_concat)
  from loop_frame[OF this assms(2)]
  have "sent (handleConnection u (frame ls @ t)) = labelled u [] ls"
    by (simp add: handleConnection_def sent_map_Send)
  then show ?thesis by (simp add: labelled_index label_from_empty containsMarker_eq)
qed

theorem label_is_latest_announcement_witness:
  "newline \<notin> set (concat [''hi'', ''::name:: Bob '', ''yo'', ''x ::name::Al'', ''zz''])
   \<and> newline \<notin> set ''part''
   \<and> sent (handleConnection no_unicode
        (frame [''hi'', ''::name:: Bob '', ''yo'', ''x ::name::Al'', ''zz''] @ ''part'')) =
       [\<lparr>name = [], message = ''hi''\<rparr>, \<lparr>name = ''Bob: '', message = ''yo''\<rparr>,
        \<lparr>name = ''Al: '', message = ''zz''\<rparr>]"
proof -
  have h1: "newline \<notin> set (concat [''hi'', ''::name:: Bob '', ''yo'', ''x ::name::Al'', ''zz''])"
    by (simp add: newline_def)
  have h2: "newline \<notin> set ''part''" by (simp add: newline_def)
  have r: "map (\<lambda>i. \<lparr>name = label_before no_unicode
                 (take i [''hi'', ''::name:: Bob '', ''yo'', ''x ::name::Al'', ''zz'']),
               message = [''hi'', ''::name:: Bob '', ''yo'', ''x ::name::Al'', ''zz''] ! i\<rparr>)
             (filter (\<lambda>i. \<not> containsMarker
                 ([''hi'', ''::name:: Bob '', ''yo'', ''x ::name::Al'', ''zz''] ! i))
               [0..<length [''hi'', ''::name:: Bob '', ''yo'', ''x ::name::Al'', ''zz'']]) =
           [\<lparr>name = [], message = ''hi''\<rparr>, \<lparr>name = ''Bob: '', message = ''yo''\<rparr>,
            \<lparr>name = ''Al: '', message = ''zz''\<rparr>]"
    by code_simp
  have c: "sent (handleConnection no_unicode
        (frame [''hi'', ''::name:: Bob '', ''yo'', ''x ::name::Al'', ''zz''] @ ''part'')) =
       [\<lparr>name = [], message = ''hi''\<rparr>, \<lparr>name = ''Bob: '', message = ''yo''\<rparr>,
        \<lparr>name = ''Al: '', message = ''zz''\<rparr>]"
    using label_is_latest_announcement[OF h1 h2, of no_unicode] unfolding r .
  from h1 h2 c show ?thesis by (intro conjI)
qed

text \<open>
  Claim C3, as the specification states it: the worker submits exactly one message per
  line that is not an identity announcement, an announcement being a line that begins
  with the marker. The line \<^verbatim>\<open>hi ::name::Bob\<close> does not begin with the marker, and the
  worker submits no message for it.
\<close>

theorem no_message_for_line_with_marker_inside:
  "\<not> beginsWithMarker ''hi ::name::Bob''
   \<and> sent (handleConnection no_unicode (frame [''hi ::name::Bob''])) = []"
  by code_simp

text \<open>
  Claim C3, amended: the worker submits exactly one message per line that does not
  contain the marker and none per line that contains it, at any position, in the order
  in which the lines were read: the texts of the messages submitted are the lines that
  do not contain the marker, in their order.
\<close>

theorem one_message_per_line_in_order:
  assumes "newline \<notin> set (concat ls)" and "newline \<notin> set t"
  shows "map message (sent (handleConnection u (frame ls @ t))) =
           filter (\<lambda>l. \<not> containsMarker l) ls"
proof -
  from assms(1) have "\<forall>l \<in> set ls. newline \<notin> set l" by (rule not_newline_concat)
  from loop_frame[OF this assms(2)]
  have "sent (handleConnection u (frame ls @ t)) = labelled u [] ls"
    by (simp add: handleConnection_def sent_map_Send)
  then show ?thesis by (simp add: message_labelled containsMarker_eq)
qed

theorem one_message_per_line_in_order_witness:
  "newline \<notin> set (concat [''hi'', ''::name:: Bob '', ''yo'', ''x ::name::Al'', ''zz''])
   \<and> newline \<notin> set ''part''
   \<and> map message (sent (handleConnection no_unicode
        (frame [''hi'', ''::name:: Bob '', ''yo'', ''x ::name::Al'', ''zz''] @ ''part''))) =
       [''hi'', ''yo'', ''zz'']"
proof -
  have h1: "newline \<notin> set (concat [''hi'', ''::name:: Bob '', ''yo'', ''x ::name::Al'', ''zz''])"
    by (simp add: newline_def)
  have h2: "newline \<notin> set ''part''" by (simp add: newline_def)
  have r: "filter (\<lambda>l. \<not> containsMarker l)
             [''hi'', ''::name:: Bob '', ''yo'', ''x ::name::Al'', ''zz''] =
           [''hi'', ''yo'', ''zz'']"
    by code_simp
  have c: "map message (sent (handleConnection no_unicode
        (frame [''hi'', ''::name:: Bob '', ''yo'', ''x ::name::Al'', ''zz''] @ ''part''))) =
       [''hi'', ''yo'', ''zz'']"
    using one_message_per_line_in_order[OF h1 h2, of no_unicode] unfolding r .
  from h1 h2 c show ?thesis by (intro conjI)
qed

text \<open>
  Claim C8: when the stream ends or a read fails, the worker closes the connection and
  stops, and what it read after the last line terminator is dropped. The events of a
  worker on the lines \<open>ls\<close> followed by the unterminated bytes \<open>t\<close> are the messages
  of the lines \<open>ls\<close> alone, then \<^const>\<open>Close\<close>, and nothing after it.
\<close>

theorem stream_end_closes_and_drops_partial_line:
  assumes "newline \<notin> set (concat ls)" and "newline \<notin> set t"
  shows "handleConnection u (frame ls @ t) =
           map Send (sent (handleConnection u (frame ls))) @ [Close]"
proof -
  from assms(1) have b: "\<forall>l \<in> set ls. newline \<notin> set l" by (rule not_newline_concat)
  have e: "newline \<notin> set []" by simp
  from loop_frame[OF b e, of u "[]"]
  have "sent (handleConnection u (frame ls)) = labelled u [] ls"
    by (simp add: handleConnection_def sent_map_Send)
  with loop_frame[OF b assms(2), of u "[]"] show ?thesis
    by (simp add: handleConnection_def)
qed

theorem stream_end_closes_and_drops_partial_line_witness:
  "newline \<notin> set (concat [''::name::Bob'', ''yo''])
   \<and> newline \<notin> set ''part''
   \<and> handleConnection no_unicode (frame [''::name::Bob'', ''yo''] @ ''part'') =
       [Send \<lparr>name = ''Bob: '', message = ''yo''\<rparr>, Close]"
proof -
  have h1: "newline \<notin> set (concat [''::name::Bob'', ''yo''])"
    by (simp add: newline_def)
  have h2: "newline \<notin> set ''part''" by (simp add: newline_def)
  have r: "map Send (sent (handleConnection no_unicode (frame [''::name::Bob'', ''yo''])))
             @ [Close] =
           [Send \<lparr>name = ''Bob: '', message = ''yo''\<rparr>, Close]"
    by code_simp
  have c: "handleConnection no_unicode (frame [''::name::Bob'', ''yo''] @ ''part'') =
       [Send \<lparr>name = ''Bob: '', message = ''yo''\<rparr>, Close]"
    using stream_end_closes_and_drops_partial_line[OF h1 h2, of no_unicode] unfolding r .
  from h1 h2 c show ?thesis by (intro conjI)
qed

text \<open>
  Claim C4, as the specification states it: a line that is the marker followed by
  nothing or by white space sets the identity to an empty label, so that later messages
  are shown without a prefix. Line 82 appends \<^verbatim>\<open>": "\<close> to the trimmed text
  whatever it is, so the label is \<^verbatim>\<open>": "\<close> and not the empty label.
\<close>

theorem blank_identity_label_is_not_empty:
  "handleLine no_unicode ''Al: '' ''::name::   '' = Inr ('': '', [])
   \<and> handleLine no_unicode ''Al: '' ''::name::   '' \<noteq> Inr ([], [])"
  by (simp add: HasPrefix_def marker_def handleLine_def TrimSpace_def no_unicode_def
        RuneSelf_def asciiSpace_def)

text \<open>
  Claim C4, amended: a line that is the marker followed by a remainder \<open>ws\<close> that is
  empty or white space only (\<^verbatim>\<open>strings.TrimSpace\<close> leaves nothing of it, be the white
  space ASCII or Unicode) sets the identity to the label \<^verbatim>\<open>": "\<close>, the empty trimmed
  text followed by the label terminator, whatever the identity was before, and no error
  is raised. Every message that follows on the connection, up to the next line that
  contains the marker, carries that label (\<open>rest\<close> are the lines that follow, \<open>t\<close>
  the bytes after the last line terminator), and as the label is not empty, the block
  of such a message is made of the emphasised \<^verbatim>\<open>": "\<close> followed by the text.
\<close>

theorem blank_identity_sets_terminator_label:
  assumes "TrimSpace u ws = []" and "newline \<notin> set ws"
    and "newline \<notin> set (concat rest)" and "newline \<notin> set t"
    and "list_all (\<lambda>l. \<not> containsMarker l) rest"
  shows "handleLine u nm (marker @ ws) = Inr ('': '', [])
         \<and> handleConnection_loop u nm (frame ((marker @ ws) # rest) @ t) =
             map (\<lambda>l. Send \<lparr>name = '': '', message = l\<rparr>) rest @ [Close]
         \<and> format d '': '' text w =
             wrap_String d
               (TrimLeft_space
                  (indent_String d ('' '' @ wordwrap_String d (Render d '': '' @ text) (w - 6)) 4)
                @ [newline])
               w"
proof -
  have i: "isIdentityLine (marker @ ws)"
    using Index_contains[of "[]" marker ws] by (simp add: isIdentityLine_def)
  have "\<forall>a b. [] @ butlast marker \<noteq> a @ marker @ b"
  proof (intro allI notI)
    fix a b assume "[] @ butlast marker = a @ marker @ b"
    then have "length ([] @ butlast marker) = length (a @ marker @ b)" by (rule arg_cong)
    then show False by (simp add: marker_length)
  qed
  from announced_first[OF this, of u ws]
  have a: "announced u (marker @ ws) = '': ''"
    using assms(1) by simp
  have nlm: "newline \<notin> set marker" by (simp add: marker_def newline_def)
  from assms(3) have "\<forall>l \<in> set rest. newline \<notin> set l" by (rule not_newline_concat)
  with nlm assms(2) have b: "\<forall>x \<in> set ((marker @ ws) # rest). newline \<notin> set x" by simp
  from loop_frame[OF b assms(4), of u nm] i a
  have "handleConnection_loop u nm (frame ((marker @ ws) # rest) @ t) =
          map Send (labelled u '': '' rest) @ [Close]" by simp
  also have "labelled u '': '' rest = map (\<lambda>l. \<lparr>name = '': '', message = l\<rparr>) rest"
    using assms(5) by (rule labelled_plain)
  finally have l: "handleConnection_loop u nm (frame ((marker @ ws) # rest) @ t) =
             map (\<lambda>l. Send \<lparr>name = '': '', message = l\<rparr>) rest @ [Close]"
    by (simp add: comp_def)
  have h: "handleLine u nm (marker @ ws) = Inr ('': '', [])"
    using i a by (simp add: handleLine_eq)
  have f: "format d '': '' text w =
             wrap_String d
               (TrimLeft_space
                  (indent_String d ('' '' @ wordwrap_String d (Render d '': '' @ text) (w - 6)) 4)
                @ [newline])
               w"
    by (simp add: format_def)
  from h l f show ?thesis by (intro conjI)
qed

theorem blank_identity_sets_terminator_label_witness:
  "TrimSpace no_unicode ''   '' = [] \<and> newline \<notin> set ''   ''
   \<and> newline \<notin> set (concat [''hello'', ''again'']) \<and> newline \<notin> set ''par''
   \<and> list_all (\<lambda>l. \<not> containsMarker l) [''hello'', ''again'']
   \<and> handleLine no_unicode ''Al: '' (marker @ ''   '') = Inr ('': '', [])
   \<and> handleConnection_loop no_unicode ''Al: ''
        (frame ((marker @ ''   '') # [''hello'', ''again'']) @ ''par'') =
       [Send \<lparr>name = '': '', message = ''hello''\<rparr>,
        Send \<lparr>name = '': '', message = ''again''\<rparr>, Close]"
proof -
  have h1: "TrimSpace no_unicode ''   '' = []" by code_simp
  have h2: "newline \<notin> set ''   ''" by (simp add: newline_def)
  have h3: "newline \<notin> set (concat [''hello'', ''again''])" by (simp add: newline_def)
  have h4: "newline \<notin> set ''par''" by (simp add: newline_def)
  have h5: "list_all (\<lambda>l. \<not> containsMarker l) [''hello'', ''again'']" by code_simp
  note t = blank_identity_sets_terminator_label[OF h1 h2 h3 h4 h5, of "''Al: ''"]
  have a: "handleLine no_unicode ''Al: '' (marker @ ''   '') = Inr ('': '', [])"
    by (rule t[THEN conjunct1])
  have b: "handleConnection_loop no_unicode ''Al: ''
        (frame ((marker @ ''   '') # [''hello'', ''again'']) @ ''par'') =
       [Send \<lparr>name = '': '', message = ''hello''\<rparr>,
        Send \<lparr>name = '': '', message = ''again''\<rparr>, Close]"
    using t[THEN conjunct2, THEN conjunct1] by simp
  from h1 h2 h3 h4 h5 a b show ?thesis by (intro conjI)
qed

section \<open>The claims about the render loop\<close>

text \<open>
  Claim C5, as the specification states it: formatting a message whose text is empty
  gives a block of the indent and a newline, appended to the transcript, and never the
  empty string. \<^verbatim>\<open>Update\<close> guards the formatting with
  \<^verbatim>\<open>if len(msg.message) > 0\<close>: for an empty text nothing is appended, and a transcript
  that was empty is still empty.
\<close>

theorem empty_text_leaves_transcript_empty:
  "content (fst (Update plain (RemoteMsg \<lparr>name = ''Al: '', message = []\<rparr>) (shown 20 []))) = []"
  by code_simp

text \<open>
  Claim C5, amended: for every identity and every width, a message whose text is empty
  is skipped: \<^verbatim>\<open>Update\<close> returns the model as it was (nothing is appended to the
  transcript, the viewport is not refreshed) and no command, and never throws.
\<close>

theorem empty_text_appends_nothing:
  "Update d (RemoteMsg \<lparr>name = nm, message = []\<rparr>) m = (m, CmdNil)"
  by (simp add: Update_def)

text \<open>
  Claim C7, as the specification states it: the clear request followed by a message
  gives the transcript that the message gives from the empty initial state. The
  formatting reads the width of the viewport, which is 0 in the initial model of
  \<^verbatim>\<open>initialModel()\<close>: on the terminal of \<^const>\<open>plain\<close>, the text \<^verbatim>\<open>ab\<close> after a
  clear request in a viewport one column wide is broken into two lines, and from the
  initial model it is one line.
\<close>

theorem clear_then_message_differs_from_initial_model:
  "content (fst (Update plain (RemoteMsg \<lparr>name = [], message = ''ab''\<rparr>)
      (fst (Update plain (KeyMsg ''c'') (shown 1 (''old'' @ [newline])))))) =
     ''a'' @ [newline] @ ''b'' @ [newline]
   \<and> content (fst (Update plain (RemoteMsg \<lparr>name = [], message = ''ab''\<rparr>)
      (initialModel plain))) =
     ''ab'' @ [newline]"
  by code_simp

text \<open>
  Claim C7, amended: for every transcript and every message, the clear request followed
  by the message gives the transcript that the message gives from the initial model,
  whose transcript is empty, placed in the same viewport, so that both are formatted at
  the same width. The hypothesis is the widget's part: its \<^verbatim>\<open>SetContent\<close> does not
  change that width.
\<close>

theorem clear_then_message_transcript:
  assumes "\<And>s v. Width (SetContent d s v) = Width v"
  shows "content (fst (Update d (RemoteMsg r) (fst (Update d (KeyMsg ''c'') m)))) =
         content (fst (Update d (RemoteMsg r) ((initialModel d)\<lparr>viewport := viewport m\<rparr>)))"
  using assms by (simp add: Update_def initialModel_def Let_def)

theorem clear_then_message_transcript_witness:
  "(\<forall>s v. Width (SetContent plain s v) = Width v)
   \<and> content (fst (Update plain (RemoteMsg \<lparr>name = ''Al: '', message = ''hello''\<rparr>)
        (fst (Update plain (KeyMsg ''c'') (shown 20 (''old'' @ [newline])))))) =
     ''Al: hello'' @ [newline]
   \<and> content (fst (Update plain (RemoteMsg \<lparr>name = ''Al: '', message = ''hello''\<rparr>)
        ((initialModel plain)\<lparr>viewport := viewport (shown 20 (''old'' @ [newline]))\<rparr>))) =
     ''Al: hello'' @ [newline]"
proof -
  have h: "\<And>s v. Width (SetContent plain s v) = Width v"
    by (simp add: plain_def set_content_def Let_def)
  have r: "content (fst (Update plain (RemoteMsg \<lparr>name = ''Al: '', message = ''hello''\<rparr>)
        ((initialModel plain)\<lparr>viewport := viewport (shown 20 (''old'' @ [newline]))\<rparr>))) =
     ''Al: hello'' @ [newline]"
    by code_simp
  have a: "content (fst (Update plain (RemoteMsg \<lparr>name = ''Al: '', message = ''hello''\<rparr>)
        (fst (Update plain (KeyMsg ''c'') (shown 20 (''old'' @ [newline])))))) =
     ''Al: hello'' @ [newline]"
    using clear_then_message_transcript[where d = plain
        and r = "\<lparr>name = ''Al: '', message = ''hello''\<rparr>"
        and m = "shown 20 (''old'' @ [newline])", OF h]
    unfolding r .
  from h have h': "\<forall>s v. Width (SetContent plain s v) = Width v" by blast
  from h' a r show ?thesis by (intro conjI)
qed

text \<open>
  Claim C10, as the specification states it: a clear request in the Ready state empties
  the transcript and the content of the viewport and leaves every other component as
  it was, the position of the viewport among them. The code calls
  \<^verbatim>\<open>m.viewport.SetContent("")\<close>, and the scroll position after the request is the one
  that call leaves: in the viewport of \<^const>\<open>plain\<close>, scrolled to line 3 of a
  transcript of five lines, the clear request moves the scroll position to 0, while
  the width, the height and \<^verbatim>\<open>YPosition\<close> stay.
\<close>

theorem clear_request_moves_scroll_position:
  "ready (scrolled 20 ''a\<newline>b\<newline>c\<newline>d\<newline>e'' 3)
   \<and> snd (widget (viewport (scrolled 20 ''a\<newline>b\<newline>c\<newline>d\<newline>e'' 3))) = 3
   \<and> Update plain (KeyMsg ''c'') (scrolled 20 ''a\<newline>b\<newline>c\<newline>d\<newline>e'' 3) =
       (scrolled 20 [] 0, CmdNil)"
  by code_simp

text \<open>
  Claim C10, amended: a clear request in the Ready state empties the transcript and
  gives the empty content to the viewport by \<^verbatim>\<open>SetContent("")\<close>; the model stays
  ready, no command is returned, and the code changes nothing else: the viewport after
  the request is the one that \<^verbatim>\<open>SetContent("")\<close> makes of the viewport before it. So
  every property \<open>P\<close> of the viewport that this call keeps (the width, the height and
  \<^verbatim>\<open>YPosition\<close> for the widget of bubbles) is as before; the scroll position is not
  among them in general.
\<close>

theorem clear_request_frame:
  assumes "ready m" and "\<And>v. P (SetContent d [] v) = P v"
  shows "Update d (KeyMsg ''c'') m =
           (m\<lparr>content := [], viewport := SetContent d [] (viewport m)\<rparr>, CmdNil)
         \<and> content (fst (Update d (KeyMsg ''c'') m)) = []
         \<and> ready (fst (Update d (KeyMsg ''c'') m))
         \<and> viewport (fst (Update d (KeyMsg ''c'') m)) = SetContent d [] (viewport m)
         \<and> P (viewport (fst (Update d (KeyMsg ''c'') m))) = P (viewport m)"
  using assms by (simp add: Update_def)

theorem clear_request_frame_witness:
  "ready (scrolled 20 (''old'' @ [newline]) 0)
   \<and> (\<forall>v. (\<lambda>v. (Width v, Height v, YPosition v)) (SetContent plain [] v) =
           (\<lambda>v. (Width v, Height v, YPosition v)) v)
   \<and> Update plain (KeyMsg ''c'') (scrolled 20 (''old'' @ [newline]) 0) =
       (scrolled 20 [] 0, CmdNil)
   \<and> (\<lambda>v. (Width v, Height v, YPosition v))
        (viewport (fst (Update plain (KeyMsg ''c'') (scrolled 20 (''old'' @ [newline]) 0)))) =
       (20, 2, 4)"
proof -
  have h1: "ready (scrolled 20 (''old'' @ [newline]) 0)" by (simp add: scrolled_def)
  have h2: "\<And>v. (\<lambda>v. (Width v, Height v, YPosition v)) (SetContent plain [] v) =
              (\<lambda>v. (Width v, Height v, YPosition v)) v"
    by (simp add: plain_def set_content_def Let_def)
  have r: "(scrolled 20 (''old'' @ [newline]) 0)\<lparr>content := [],
             viewport := SetContent plain [] (viewport (scrolled 20 (''old'' @ [newline]) 0))\<rparr> =
           scrolled 20 [] 0"
    by code_simp
  have w: "(\<lambda>v. (Width v, Height v, YPosition v))
             (viewport (scrolled 20 (''old'' @ [newline]) 0)) = (20, 2, 4)"
    by (simp add: scrolled_def)
  note t = clear_request_frame[of "scrolled 20 (''old'' @ [newline]) 0"
      "\<lambda>v. (Width v, Height v, YPosition v)" plain, OF h1 h2]
  have a: "Update plain (KeyMsg ''c'') (scrolled 20 (''old'' @ [newline]) 0) =
       (scrolled 20 [] 0, CmdNil)"
    using t[THEN conjunct1] unfolding r .
  have b: "(\<lambda>v. (Width v, Height v, YPosition v))
        (viewport (fst (Update plain (KeyMsg ''c'') (scrolled 20 (''old'' @ [newline]) 0)))) =
       (20, 2, 4)"
    using t[THEN conjunct2, THEN conjunct2, THEN conjunct2, THEN conjunct2] unfolding w .
  from h2 have h2': "\<forall>v. (\<lambda>v. (Width v, Height v, YPosition v)) (SetContent plain [] v) =
           (\<lambda>v. (Width v, Height v, YPosition v)) v" by blast
  from h1 h2' a b show ?thesis by (intro conjI)
qed

text \<open>
  Claim C9, as the specification states it: formatting with a width \<open>\<le> 0\<close> behaves as
  if the width were 1. \<^verbatim>\<open>Update\<close> hands \<^verbatim>\<open>m.viewport.Width\<close> to the wrappers as it
  is, so the two widths give different blocks as soon as the hard wrapper tells them
  apart: on the terminal of \<^const>\<open>plain\<close> the text \<^verbatim>\<open>ab\<close> stays one line at width 0
  and is broken into two at width 1.
\<close>

theorem width_zero_is_not_width_one:
  "content (fst (Update plain (RemoteMsg \<lparr>name = [], message = ''ab''\<rparr>) (shown 0 []))) =
     ''ab'' @ [newline]
   \<and> content (fst (Update plain (RemoteMsg \<lparr>name = [], message = ''ab''\<rparr>) (shown 1 []))) =
     ''a'' @ [newline] @ ''b'' @ [newline]"
  by code_simp

text \<open>
  Claim C9, amended: for every identity and every text that is not empty, formatting
  with a width \<open>\<le> 0\<close> uses that width as it is, not 1: the limit given to
  \<^verbatim>\<open>wordwrap.String\<close> is the width minus 4 and minus the length of the identity,
  computed in 64 bits, and the limit given to \<^verbatim>\<open>wrap.String\<close> is the width itself.
  That first limit is negative unless the subtraction wraps around, which it does only
  for a width within 4 plus the length of the identity of the smallest integer. The
  code of the repository divides by nothing and raises nothing: \<^verbatim>\<open>Update\<close> returns the
  model with that block appended and no command.
\<close>

theorem width_passed_through:
  assumes "sint (Width (viewport m)) \<le> 0" and "message r \<noteq> []"
  shows "content (fst (Update d (RemoteMsg r) m)) =
           content m @
           wrap_String d
             (TrimLeft_space
                (indent_String d
                   ('' '' @ wordwrap_String d
                              (if name r = [] then message r else Render d (name r) @ message r)
                              (Width (viewport m) - (4 + of_nat (length (name r)))))
                   4) @ [newline])
             (Width (viewport m))
         \<and> snd (Update d (RemoteMsg r) m) = CmdNil
         \<and> (- 9223372036854775808 + 4 + int (length (name r)) \<le> sint (Width (viewport m))
              \<longrightarrow> sint (Width (viewport m) - (4 + of_nat (length (name r)))) < 0)"
proof -
  have a: "content (fst (Update d (RemoteMsg r) m)) =
           content m @
           wrap_String d
             (TrimLeft_space
                (indent_String d
                   ('' '' @ wordwrap_String d
                              (if name r = [] then message r else Render d (name r) @ message r)
                              (Width (viewport m) - (4 + of_nat (length (name r)))))
                   4) @ [newline])
             (Width (viewport m))
         \<and> snd (Update d (RemoteMsg r) m) = CmdNil"
    using assms(2) by (simp add: Update_def format_def Let_def)
  have b: "- 9223372036854775808 + 4 + int (length (name r)) \<le> sint (Width (viewport m))
              \<longrightarrow> sint (Width (viewport m) - (4 + of_nat (length (name r)))) < 0"
  proof
    assume lo: "- 9223372036854775808 + 4 + int (length (name r)) \<le> sint (Width (viewport m))"
    from sint_limit[OF lo assms(1)] assms(1)
    show "sint (Width (viewport m) - (4 + of_nat (length (name r)))) < 0" by simp
  qed
  from a b show ?thesis by simp
qed

theorem width_passed_through_witness:
  "sint (Width (viewport (shown 0 []))) \<le> 0
   \<and> message \<lparr>name = [], message = ''ab''\<rparr> \<noteq> []
   \<and> content (fst (Update plain (RemoteMsg \<lparr>name = [], message = ''ab''\<rparr>) (shown 0 []))) =
       ''ab'' @ [newline]
   \<and> snd (Update plain (RemoteMsg \<lparr>name = [], message = ''ab''\<rparr>) (shown 0 [])) = CmdNil
   \<and> sint (Width (viewport (shown 0 []))
           - (4 + of_nat (length (name \<lparr>name = [], message = ''ab''\<rparr>)))) < 0"
proof -
  have h1: "sint (Width (viewport (shown 0 []))) \<le> 0" by (simp add: shown_def scrolled_def)
  have h2: "message \<lparr>name = [], message = ''ab''\<rparr> \<noteq> []" by simp
  have h3: "- 9223372036854775808 + 4 + int (length (name \<lparr>name = [], message = ''ab''\<rparr>))
              \<le> sint (Width (viewport (shown 0 [])))"
    by (simp add: shown_def scrolled_def)
  have r: "content (shown 0 []) @
           wrap_String plain
             (TrimLeft_space
                (indent_String plain
                   ('' '' @ wordwrap_String plain
                              (if name \<lparr>name = [], message = ''ab''\<rparr> = []
                               then message \<lparr>name = [], message = ''ab''\<rparr>
                               else Render plain (name \<lparr>name = [], message = ''ab''\<rparr>)
                                    @ message \<lparr>name = [], message = ''ab''\<rparr>)
                              (Width (viewport (shown 0 []))
                               - (4 + of_nat (length (name \<lparr>name = [], message = ''ab''\<rparr>)))))
                   4) @ [newline])
             (Width (viewport (shown 0 []))) =
           ''ab'' @ [newline]"
    by code_simp
  note t = width_passed_through[of "shown 0 []" "\<lparr>name = [], message = ''ab''\<rparr>" plain, OF h1 h2]
  have a: "content (fst (Update plain (RemoteMsg \<lparr>name = [], message = ''ab''\<rparr>) (shown 0 []))) =
          ''ab'' @ [newline]"
    using t[THEN conjunct1] unfolding r .
  have b: "snd (Update plain (RemoteMsg \<lparr>name = [], message = ''ab''\<rparr>) (shown 0 [])) = CmdNil"
    by (rule t[THEN conjunct2, THEN conjunct1])
  have c: "sint (Width (viewport (shown 0 []))
           - (4 + of_nat (length (name \<lparr>name = [], message = ''ab''\<rparr>)))) < 0"
    using t[THEN conjunct2, THEN conjunct2] h3 by blast
  from h1 h2 a b c show ?thesis by (intro conjI)
qed

text \<open>At the smallest integer the subtraction wraps around, and the limit given to
  \<^verbatim>\<open>wordwrap.String\<close> for the empty identity is positive.\<close>

lemma limit_wraps_at_smallest_int:
  "sint ((- 9223372036854775808 :: go_int) - (4 + of_nat (length ([]::string)))) =
     9223372036854775804"
  by simp

end
